theory Spec2Isabelle
  imports Main "HOL-Library.Word"
begin

section \<open>The sketch \<open>arduino_sketch.ino\<close>: constants and state\<close>

text \<open>
  The sketch is one cooperative control loop. Its globals are \<open>int\<close> pin numbers,
  message codes and timing constants, one \<open>int\<close> flag and two \<open>unsigned long\<close>
  variables.
  The \<open>int\<close> globals never leave the range 0..250, so they are modelled as
  mathematical integers; the only arithmetic that can overflow is the timestamp
  subtraction and its conversion to \<open>int\<close>, which is modelled with machine words.
  \<open>unsigned long\<close> is 32 bits on every Arduino board. \<open>setup\<close> only opens the
  serial port and configures the two pins as inputs; it touches none of the globals.
\<close>

type_synonym ulong = "32 word"

definition MSG_MEATBAG_DEACTIVATE :: int where
  "MSG_MEATBAG_DEACTIVATE = 2"

definition MSG_MEATBAG_ACTIVATE :: int where
  "MSG_MEATBAG_ACTIVATE = 3"

definition MSG_EVENT_HEARTBEAT :: int where
  "MSG_EVENT_HEARTBEAT = 4"

definition MSG_EVENT_PROBE :: int where
  "MSG_EVENT_PROBE = 5"

definition MEATBAG_BAUD :: int where
  "MEATBAG_BAUD = 4"

definition CYCLE_TIMESPAN :: int where
  "CYCLE_TIMESPAN = 1000 div MEATBAG_BAUD"

definition EVENT_TIMESPAN :: int where
  "EVENT_TIMESPAN = CYCLE_TIMESPAN div 2"

text \<open>The pin levels of \<open>Arduino.h\<close>, which the sketch compares \<open>digitalRead\<close> against.\<close>

definition LOW :: int where
  "LOW = 0"

definition HIGH :: int where
  "HIGH = 1"

text \<open>
  The width of the C type \<open>int\<close> depends on the board: 16 bits on AVR boards
  (Uno, Mega, Nano), 32 bits on ARM and ESP boards. The sketch does not fix the board,
  so the width is a parameter of the model.
\<close>

datatype int_width = Int16 | Int32

text \<open>
  Conversion of an \<open>unsigned long\<close> to \<open>int\<close>, as in
  \<open>int timeElapsed = currentTimestamp - previousTimestamp\<close>: the low bits of the
  value, read as two's complement.
\<close>

fun to_int :: "int_width \<Rightarrow> ulong \<Rightarrow> int" where
  "to_int Int16 x = sint (ucast x :: 16 word)"
| "to_int Int32 x = sint x"

record state =
  isMeatbagTranscribing :: int
  previousTimestamp :: ulong
  previousEvent :: ulong

definition initial_state :: state where
  "initial_state =
     \<lparr>isMeatbagTranscribing = 0,
      previousTimestamp = 0,
      previousEvent = of_int MSG_EVENT_PROBE\<rparr>"

text \<open>
  What one run of \<open>loop\<close> reads from its environment: the clock \<open>millis()\<close> and the
  levels of the two input pins (\<open>True\<close> for a high level).
\<close>

record inputs =
  millis :: ulong
  pin_in :: bool
  pin_activate :: bool

text \<open>\<open>digitalRead\<close> returns \<open>HIGH\<close> or \<open>LOW\<close> according to the level of the pin.\<close>

definition digitalRead :: "bool \<Rightarrow> int" where
  "digitalRead level = (if level then HIGH else LOW)"

section \<open>The serial sink\<close>

text \<open>
  Each branch of \<open>loop\<close> that fires makes one call of \<open>Serial.print\<close>. An
  \<open>event\<close> names the branch; \<open>printed\<close> is the integer that branch passes to
  \<open>Serial.print\<close>. The probe branch passes the sampled pin value, not
  \<open>MSG_EVENT_PROBE\<close>.
\<close>

datatype event = Heartbeat | Probe int | Deactivate | Activate

fun printed :: "event \<Rightarrow> int" where
  "printed Heartbeat = MSG_EVENT_HEARTBEAT"
| "printed (Probe v) = v"
| "printed Deactivate = MSG_MEATBAG_DEACTIVATE"
| "printed Activate = MSG_MEATBAG_ACTIVATE"

text \<open>\<open>Serial.print\<close> of an \<open>int\<close> writes its decimal digits, with a sign if negative.\<close>

definition digit_char :: "nat \<Rightarrow> char" where
  "digit_char d = char_of (48 + d)"

fun print_nat :: "nat \<Rightarrow> string" where
  "print_nat n = (if n < 10 then [digit_char n] else print_nat (n div 10) @ [digit_char (n mod 10)])"

declare print_nat.simps [simp del]

definition Serial_print :: "int \<Rightarrow> string" where
  "Serial_print n = (if n < 0 then CHR ''-'' # print_nat (nat (- n)) else print_nat (nat n))"

definition wire :: "event list \<Rightarrow> string" where
  "wire es = concat (map (\<lambda>e. Serial_print (printed e)) es)"

section \<open>The control loop\<close>

text \<open>The first half of \<open>loop\<close>: the heartbeat and probe branches.\<close>

definition scheduler :: "int_width \<Rightarrow> inputs \<Rightarrow> state \<Rightarrow> state \<times> event list" where
  "scheduler w i s =
     (let currentTimestamp = millis i;
          timeElapsed = to_int w (currentTimestamp - previousTimestamp s)
      in if timeElapsed > EVENT_TIMESPAN
            \<and> previousEvent s = of_int MSG_EVENT_PROBE
         then (s\<lparr>previousTimestamp := currentTimestamp,
                 previousEvent := of_int MSG_EVENT_HEARTBEAT\<rparr>,
               [Heartbeat])
         else if timeElapsed > EVENT_TIMESPAN
            \<and> previousEvent s = of_int MSG_EVENT_HEARTBEAT
            \<and> isMeatbagTranscribing s = 1
            \<and> timeElapsed > EVENT_TIMESPAN
         then (s\<lparr>previousTimestamp := currentTimestamp,
                 previousEvent := of_int MSG_EVENT_PROBE\<rparr>,
               [Probe (digitalRead (pin_in i))])
         else (s, []))"

text \<open>The second half of \<open>loop\<close>: the activation pin.\<close>

definition edge_detector :: "inputs \<Rightarrow> state \<Rightarrow> state \<times> event list" where
  "edge_detector i s =
     (let activate = digitalRead (pin_activate i)
      in if isMeatbagTranscribing s = 1 \<and> activate = LOW
         then (s\<lparr>isMeatbagTranscribing := 0\<rparr>, [Deactivate])
         else if isMeatbagTranscribing s = 0 \<and> activate = HIGH
         then (s\<lparr>isMeatbagTranscribing := 1\<rparr>, [Activate])
         else (s, []))"

definition loop :: "int_width \<Rightarrow> inputs \<Rightarrow> state \<Rightarrow> state \<times> event list" where
  "loop w i s =
     (let (s1, es1) = scheduler w i s;
          (s2, es2) = edge_detector i s1
      in (s2, es1 @ es2))"

text \<open>The board calls \<open>loop\<close> again and again; a poll sequence is the list of what
  each call reads.\<close>

fun run_state :: "int_width \<Rightarrow> state \<Rightarrow> inputs list \<Rightarrow> state" where
  "run_state w s [] = s"
| "run_state w s (i # ins) = run_state w (fst (loop w i s)) ins"

fun run_events :: "int_width \<Rightarrow> state \<Rightarrow> inputs list \<Rightarrow> event list" where
  "run_events w s [] = []"
| "run_events w s (i # ins) = snd (loop w i s) @ run_events w (fst (loop w i s)) ins"

text \<open>Concrete polls for the scenarios: a clock reading in milliseconds, the level
  of the signal pin and the level of the activation pin.\<close>

definition reading :: "nat \<Rightarrow> bool \<Rightarrow> bool \<Rightarrow> inputs" where
  "reading t sig act = \<lparr>millis = of_nat t, pin_in = sig, pin_activate = act\<rparr>"

text \<open>The clock sequence 0, 130, 260, 390 with both pins held high.\<close>

definition scenario :: "inputs list" where
  "scenario = [reading 0 True True, reading 130 True True,
               reading 260 True True, reading 390 True True]"

section \<open>Reading the emitted events\<close>

text \<open>The scheduler's events are the heartbeats and probes; the activation events
  are the two messages of the activation pin.\<close>

fun is_scheduler_event :: "event \<Rightarrow> bool" where
  "is_scheduler_event Heartbeat = True"
| "is_scheduler_event (Probe v) = True"
| "is_scheduler_event Deactivate = False"
| "is_scheduler_event Activate = False"

fun is_activation_event :: "event \<Rightarrow> bool" where
  "is_activation_event Heartbeat = False"
| "is_activation_event (Probe v) = False"
| "is_activation_event Deactivate = True"
| "is_activation_event Activate = True"

definition scheduler_events :: "event list \<Rightarrow> event list" where
  "scheduler_events es = filter is_scheduler_event es"

definition activation_events :: "event list \<Rightarrow> event list" where
  "activation_events es = filter is_activation_event es"

text \<open>Two events are of the same kind when the same branch of the loop emitted them.\<close>

fun same_kind :: "event \<Rightarrow> event \<Rightarrow> bool" where
  "same_kind Heartbeat Heartbeat = True"
| "same_kind (Probe u) (Probe v) = True"
| "same_kind Deactivate Deactivate = True"
| "same_kind Activate Activate = True"
| "same_kind a b = False"

text \<open>Invariants used in the proofs: a list of scheduler events that can follow a
  state whose \<open>previousEvent\<close> is \<open>p\<close>, and a list of activation events that can
  follow a state whose flag is \<open>f\<close>.\<close>

fun alternating_from :: "ulong \<Rightarrow> event list \<Rightarrow> bool" where
  "alternating_from p [] = True"
| "alternating_from p (Heartbeat # es) = (p = 5 \<and> alternating_from 4 es)"
| "alternating_from p (Probe v # es) = (p = 4 \<and> alternating_from 5 es)"
| "alternating_from p (e # es) = False"

fun toggling_from :: "int \<Rightarrow> event list \<Rightarrow> bool" where
  "toggling_from f [] = True"
| "toggling_from f (Activate # es) = (f = 0 \<and> toggling_from 1 es)"
| "toggling_from f (Deactivate # es) = (f = 1 \<and> toggling_from 0 es)"
| "toggling_from f (e # es) = False"

text \<open>The specification of the activation messages in terms of the pin alone: one
  \<open>Activate\<close> for each low-to-high transition between consecutive polls and one
  \<open>Deactivate\<close> for each high-to-low transition, nothing while the level is
  sustained. \<open>prev\<close> is the level seen by the previous poll.\<close>

fun pin_transitions :: "bool \<Rightarrow> bool list \<Rightarrow> event list" where
  "pin_transitions prev [] = []"
| "pin_transitions prev (level # levels) =
     (if \<not> prev \<and> level then [Activate]
      else if prev \<and> \<not> level then [Deactivate]
      else []) @ pin_transitions level levels"

text \<open>The clock readings at which a run emits a heartbeat, in order.\<close>

fun heartbeat_times :: "int_width \<Rightarrow> state \<Rightarrow> inputs list \<Rightarrow> ulong list" where
  "heartbeat_times w s [] = []"
| "heartbeat_times w s (i # ins) =
     (if Heartbeat \<in> set (snd (loop w i s)) then [millis i] else [])
       @ heartbeat_times w (fst (loop w i s)) ins"

text \<open>The clock readings of a poll sequence, as numbers of milliseconds.\<close>

definition clock :: "inputs list \<Rightarrow> int list" where
  "clock ins = map (\<lambda>i. uint (millis i)) ins"

text \<open>A lower bound, used in the proofs, for the clock reading of the next heartbeat:
  after a heartbeat a probe has to come first.\<close>

definition earliest_heartbeat :: "state \<Rightarrow> int" where
  "earliest_heartbeat s =
     uint (previousTimestamp s) + (if previousEvent s = 4 then EVENT_TIMESPAN else 0)"

text \<open>The largest value of the C type \<open>int\<close>.\<close>

fun INT_MAX :: "int_width \<Rightarrow> int" where
  "INT_MAX Int16 = 32767"
| "INT_MAX Int32 = 2147483647"

text \<open>
  The specification's names for the two values of \<open>previousEvent\<close>:
  \<open>HEARTBEAT_PENDING\<close> when the last event was the probe and the heartbeat is due
  next, \<open>PROBE_PENDING\<close> when the last event was the heartbeat and the probe is due.
\<close>

datatype phase = HEARTBEAT_PENDING | PROBE_PENDING

definition phase_of :: "state \<Rightarrow> phase" where
  "phase_of s =
     (if previousEvent s = of_int MSG_EVENT_PROBE then HEARTBEAT_PENDING else PROBE_PENDING)"

text \<open>The events the loop can emit: a probe carries the value of a pin, 0 or 1.\<close>

fun emitted :: "event \<Rightarrow> bool" where
  "emitted (Probe v) = (v = 0 \<or> v = 1)"
| "emitted e = True"

text \<open>A decoder for the byte stream the sketch writes: every byte is one event.\<close>

definition digit_event :: "char \<Rightarrow> event option" where
  "digit_event c =
     (if c = CHR ''0'' then Some (Probe 0)
      else if c = CHR ''1'' then Some (Probe 1)
      else if c = CHR ''2'' then Some Deactivate
      else if c = CHR ''3'' then Some Activate
      else if c = CHR ''4'' then Some Heartbeat
      else None)"

fun decode :: "string \<Rightarrow> event list option" where
  "decode [] = Some []"
| "decode (c # cs) =
     (case digit_event c of
        None \<Rightarrow> None
      | Some e \<Rightarrow> map_option ((#) e) (decode cs))"

text \<open>
  The decoder of the specification's grammar: a probe is the byte 5 followed by one
  byte 0 or 1, the bytes 2, 3 and 4 stand alone, and nothing else is in the vocabulary.
\<close>

fun spec_decode :: "string \<Rightarrow> event list option" where
  "spec_decode [] = Some []"
| "spec_decode [c] =
     (if c = CHR ''2'' then Some [Deactivate]
      else if c = CHR ''3'' then Some [Activate]
      else if c = CHR ''4'' then Some [Heartbeat]
      else None)"
| "spec_decode (c # b # cs) =
     (if c = CHR ''5'' then
        (if b = CHR ''0'' then map_option ((#) (Probe 0)) (spec_decode cs)
         else if b = CHR ''1'' then map_option ((#) (Probe 1)) (spec_decode cs)
         else None)
      else if c = CHR ''2'' then map_option ((#) Deactivate) (spec_decode (b # cs))
      else if c = CHR ''3'' then map_option ((#) Activate) (spec_decode (b # cs))
      else if c = CHR ''4'' then map_option ((#) Heartbeat) (spec_decode (b # cs))
      else None)"

text \<open>Further concrete data: three polls at 130, 260 and 390 ms with both pins low,
  and a state whose last probe was 50 ms before the 32-bit clock wraps around.\<close>

definition idle_polls :: "inputs list" where
  "idle_polls = [reading 130 False False, reading 260 False False, reading 390 False False]"

text \<open>The scenario continued by a deactivation: the activation pin goes low at
  390 ms and stays low.\<close>

definition deactivation_polls :: "inputs list" where
  "deactivation_polls =
     [reading 0 True True, reading 130 True True, reading 260 True True,
      reading 390 True False, reading 520 True False, reading 650 True False]"

definition before_wrap :: state where
  "before_wrap =
     \<lparr>isMeatbagTranscribing = 1, previousTimestamp = 4294967246, previousEvent = 5\<rparr>"

section \<open>Basic facts about the constants and the serial sink\<close>

lemmas msg_defs = MSG_MEATBAG_DEACTIVATE_def MSG_MEATBAG_ACTIVATE_def
  MSG_EVENT_HEARTBEAT_def MSG_EVENT_PROBE_def

lemmas pin_defs = digitalRead_def HIGH_def LOW_def

lemma EVENT_TIMESPAN_value: "EVENT_TIMESPAN = 125"
  by (simp add: EVENT_TIMESPAN_def CYCLE_TIMESPAN_def MEATBAG_BAUD_def)

lemma Serial_print_digit:
  "Serial_print 0 = ''0''" "Serial_print 1 = ''1''" "Serial_print 2 = ''2''"
  "Serial_print 3 = ''3''" "Serial_print 4 = ''4''"
  by code_simp+

lemma wire_Nil: "wire [] = []"
  by (simp add: wire_def)

lemma wire_Cons: "wire (e # es) = Serial_print (printed e) @ wire es"
  by (simp add: wire_def)

lemma wire_append: "wire (xs @ ys) = wire xs @ wire ys"
  by (simp add: wire_def)

lemma wire_event:
  "wire [Heartbeat] = ''4''" "wire [Activate] = ''3''" "wire [Deactivate] = ''2''"
  "wire [Probe (digitalRead b)] = [if b then CHR ''1'' else CHR ''0'']"
  by (simp_all add: wire_def msg_defs pin_defs Serial_print_digit)

section \<open>The branches of the loop\<close>

lemma scheduler_heartbeat:
  assumes "to_int w (millis i - previousTimestamp s) > EVENT_TIMESPAN"
    and "previousEvent s = of_int MSG_EVENT_PROBE"
  shows "scheduler w i s =
    (s\<lparr>previousTimestamp := millis i, previousEvent := of_int MSG_EVENT_HEARTBEAT\<rparr>,
     [Heartbeat])"
  using assms by (simp add: scheduler_def)

lemma scheduler_probe:
  assumes "to_int w (millis i - previousTimestamp s) > EVENT_TIMESPAN"
    and "previousEvent s = of_int MSG_EVENT_HEARTBEAT"
    and "isMeatbagTranscribing s = 1"
  shows "scheduler w i s =
    (s\<lparr>previousTimestamp := millis i, previousEvent := of_int MSG_EVENT_PROBE\<rparr>,
     [Probe (digitalRead (pin_in i))])"
  using assms by (simp add: scheduler_def msg_defs)

lemma scheduler_idle:
  assumes "\<not> (to_int w (millis i - previousTimestamp s) > EVENT_TIMESPAN
      \<and> (previousEvent s = of_int MSG_EVENT_PROBE
         \<or> previousEvent s = of_int MSG_EVENT_HEARTBEAT \<and> isMeatbagTranscribing s = 1))"
  shows "scheduler w i s = (s, [])"
  using assms by (auto simp add: scheduler_def Let_def)

lemma scheduler_flag [simp]:
  "isMeatbagTranscribing (fst (scheduler w i s)) = isMeatbagTranscribing s"
  by (simp add: scheduler_def Let_def)

lemma edge_detector_phase [simp]:
  "previousEvent (fst (edge_detector i s)) = previousEvent s"
  "previousTimestamp (fst (edge_detector i s)) = previousTimestamp s"
  by (simp_all add: edge_detector_def Let_def)

lemma loop_fst: "fst (loop w i s) = fst (edge_detector i (fst (scheduler w i s)))"
  by (simp add: loop_def split: prod.splits)

lemma loop_snd:
  "snd (loop w i s) = snd (scheduler w i s) @ snd (edge_detector i (fst (scheduler w i s)))"
  by (simp add: loop_def split: prod.splits)

lemma edge_detector_pin:
  "edge_detector i s =
     (if isMeatbagTranscribing s = 1 \<and> \<not> pin_activate i
      then (s\<lparr>isMeatbagTranscribing := 0\<rparr>, [Deactivate])
      else if isMeatbagTranscribing s = 0 \<and> pin_activate i
      then (s\<lparr>isMeatbagTranscribing := 1\<rparr>, [Activate])
      else (s, []))"
  by (simp add: edge_detector_def pin_defs)

lemma scheduler_events_only [simp]:
  "filter is_scheduler_event (snd (scheduler w i s)) = snd (scheduler w i s)"
  "filter is_activation_event (snd (scheduler w i s)) = []"
  by (simp_all add: scheduler_def Let_def)

lemma edge_detector_events_only [simp]:
  "filter is_scheduler_event (snd (edge_detector i s)) = []"
  "filter is_activation_event (snd (edge_detector i s)) = snd (edge_detector i s)"
  by (simp_all add: edge_detector_def Let_def)

section \<open>The probe on the wire\<close>

text \<open>
  Claim C1, as amended. In every poll in which the probe branch fires (the elapsed time
  exceeds \<open>EVENT_TIMESPAN\<close>, the previous event is the heartbeat and the
  transcription flag is 1), the scheduler emits exactly one probe, and the byte it
  writes to the serial sink is the single character 0 or 1 of the sampled input pin;
  no character 5 precedes it. The whole poll writes that character, followed by the
  character 2 when the activation pin reads low in the same poll.
\<close>

theorem probe_wire_bytes:
  assumes "to_int w (millis i - previousTimestamp s) > EVENT_TIMESPAN"
    and "previousEvent s = of_int MSG_EVENT_HEARTBEAT"
    and "isMeatbagTranscribing s = 1"
  shows "snd (scheduler w i s) = [Probe (digitalRead (pin_in i))]
    \<and> wire (snd (scheduler w i s)) = [if pin_in i then CHR ''1'' else CHR ''0'']
    \<and> wire (snd (loop w i s)) =
        (if pin_in i then CHR ''1'' else CHR ''0'') # (if pin_activate i then [] else ''2'')"
proof -
  have sch: "scheduler w i s =
      (s\<lparr>previousTimestamp := millis i, previousEvent := of_int MSG_EVENT_PROBE\<rparr>,
       [Probe (digitalRead (pin_in i))])"
    using assms by (rule scheduler_probe)
  have ed: "wire (snd (edge_detector i (fst (scheduler w i s)))) =
      (if pin_activate i then [] else ''2'')"
    using assms(3) by (simp add: sch edge_detector_pin wire_event wire_Nil)
  show ?thesis
    by (simp add: loop_snd wire_append ed) (simp add: sch wire_event)
qed

lemma scenario_states:
  "run_state w initial_state (take 1 scenario) =
     \<lparr>isMeatbagTranscribing = 1, previousTimestamp = 0, previousEvent = 5\<rparr>"
  "run_state w initial_state (take 2 scenario) =
     \<lparr>isMeatbagTranscribing = 1, previousTimestamp = 130, previousEvent = 4\<rparr>"
  "run_state w initial_state (take 3 scenario) =
     \<lparr>isMeatbagTranscribing = 1, previousTimestamp = 260, previousEvent = 5\<rparr>"
  by (cases w; simp add: scenario_def reading_def initial_state_def loop_fst scheduler_def
      edge_detector_pin EVENT_TIMESPAN_value msg_defs)+

text \<open>The third poll of the scenario is such a poll: it writes the one character 1.\<close>

theorem probe_wire_bytes_witness:
  "to_int Int16 (millis (reading 260 True True)
       - previousTimestamp (run_state Int16 initial_state (take 2 scenario))) > EVENT_TIMESPAN
   \<and> previousEvent (run_state Int16 initial_state (take 2 scenario)) = of_int MSG_EVENT_HEARTBEAT
   \<and> isMeatbagTranscribing (run_state Int16 initial_state (take 2 scenario)) = 1
   \<and> wire (snd (loop Int16 (reading 260 True True)
                 (run_state Int16 initial_state (take 2 scenario)))) = ''1''"
proof -
  have h1: "to_int Int16 (millis (reading 260 True True)
       - previousTimestamp (run_state Int16 initial_state (take 2 scenario))) > EVENT_TIMESPAN"
    by (simp add: scenario_states reading_def EVENT_TIMESPAN_value)
  have h2: "previousEvent (run_state Int16 initial_state (take 2 scenario))
      = of_int MSG_EVENT_HEARTBEAT"
    by (simp add: scenario_states msg_defs)
  have h3: "isMeatbagTranscribing (run_state Int16 initial_state (take 2 scenario)) = 1"
    by (simp add: scenario_states)
  show ?thesis
    using h1 h2 h3 probe_wire_bytes [OF h1 h2 h3] by (simp add: reading_def)
qed

text \<open>With a 5 in front of the bit the statement fails at the same poll: the probe
  branch fires, and the bytes written are not the two characters 5 and 1; no 5 is
  written at all.\<close>

theorem probe_prefix_counterexample:
  "to_int Int16 (millis (reading 260 True True)
       - previousTimestamp (run_state Int16 initial_state (take 2 scenario))) > EVENT_TIMESPAN
   \<and> previousEvent (run_state Int16 initial_state (take 2 scenario)) = of_int MSG_EVENT_HEARTBEAT
   \<and> isMeatbagTranscribing (run_state Int16 initial_state (take 2 scenario)) = 1
   \<and> wire (snd (scheduler Int16 (reading 260 True True)
                 (run_state Int16 initial_state (take 2 scenario)))) \<noteq> ''51''
   \<and> CHR ''5'' \<notin> set (wire (snd (loop Int16 (reading 260 True True)
                 (run_state Int16 initial_state (take 2 scenario)))))"
  by (simp add: scenario_states reading_def EVENT_TIMESPAN_value msg_defs
      scheduler_def edge_detector_pin loop_snd wire_event wire_Nil)

section \<open>Alternation of heartbeats and probes\<close>

lemma scheduler_step:
  "alternating_from (previousEvent s) (snd (scheduler w i s) @ es)
     = alternating_from (previousEvent (fst (scheduler w i s))) es"
  by (simp add: scheduler_def Let_def msg_defs)

lemma run_alternating_from:
  "alternating_from (previousEvent s) (scheduler_events (run_events w s ins))"
proof (induction ins arbitrary: s)
  case Nil
  show ?case by (simp add: scheduler_events_def)
next
  case (Cons i ins)
  have "alternating_from (previousEvent (fst (loop w i s)))
          (scheduler_events (run_events w (fst (loop w i s)) ins))"
    by (rule Cons.IH)
  then show ?case
    by (simp add: scheduler_events_def loop_snd loop_fst scheduler_step)
qed

lemma alternating_from_hd:
  "alternating_from p (e # es) \<Longrightarrow> (p = 5 \<and> e = Heartbeat) \<or> (p = 4 \<and> (\<exists>v. e = Probe v))"
  by (cases e) simp_all

lemma alternating_from_successively:
  "alternating_from p es \<Longrightarrow> successively (\<lambda>a b. \<not> same_kind a b) es"
proof (induction es arbitrary: p)
  case Nil
  show ?case by simp
next
  case (Cons e es)
  show ?case
  proof (cases es)
    case Nil
    then show ?thesis by simp
  next
    case (Cons e' es')
    from Cons.prems have "alternating_from (if e = Heartbeat then 4 else 5) es"
      by (cases e) simp_all
    moreover from this Cons have "\<not> same_kind e e'"
      using alternating_from_hd [of "if e = Heartbeat then 4 else 5" e' es']
      by (cases e) (auto split: if_splits)
    ultimately show ?thesis
      using Cons.IH Cons by simp
  qed
qed

text \<open>
  Claim C4. For every sequence of polls from the initial state (whatever the clock
  values, monotonic or not), no two consecutive scheduler events are of the same kind:
  the heartbeats and probes emitted strictly alternate, so between two heartbeats there
  is a probe and between two probes a heartbeat.
\<close>

theorem heartbeat_probe_alternate:
  "successively (\<lambda>a b. \<not> same_kind a b)
     (scheduler_events (run_events w initial_state ins))"
  using run_alternating_from [of initial_state w ins]
  by (rule alternating_from_successively)

theorem heartbeat_probe_alternate_witness:
  "successively (\<lambda>a b. \<not> same_kind a b) [Heartbeat, Probe 1, Heartbeat]"
  using heartbeat_probe_alternate [of Int16 scenario]
  by (simp add: scheduler_events_def scenario_def reading_def initial_state_def loop_fst
      loop_snd scheduler_def edge_detector_pin EVENT_TIMESPAN_value msg_defs pin_defs)

section \<open>The activation pin\<close>

lemma edge_detector_step:
  "toggling_from (isMeatbagTranscribing s) (snd (edge_detector i s) @ es)
     = toggling_from (isMeatbagTranscribing (fst (edge_detector i s))) es"
  by (simp add: edge_detector_pin)

lemma run_toggling_from:
  "toggling_from (isMeatbagTranscribing s) (activation_events (run_events w s ins))"
proof (induction ins arbitrary: s)
  case Nil
  show ?case by (simp add: activation_events_def)
next
  case (Cons i ins)
  have "toggling_from (isMeatbagTranscribing (fst (loop w i s)))
          (activation_events (run_events w (fst (loop w i s)) ins))"
    by (rule Cons.IH)
  then show ?case
    using edge_detector_step [of "fst (scheduler w i s)" i]
    by (simp add: activation_events_def loop_snd loop_fst)
qed

lemma toggling_from_hd:
  "toggling_from f (e # es) \<Longrightarrow> (f = 0 \<and> e = Activate) \<or> (f = 1 \<and> e = Deactivate)"
  by (cases e) simp_all

lemma toggling_from_successively:
  "toggling_from f es \<Longrightarrow> successively (\<lambda>a b. \<not> same_kind a b) es"
proof (induction es arbitrary: f)
  case Nil
  show ?case by simp
next
  case (Cons e es)
  show ?case
  proof (cases es)
    case Nil
    then show ?thesis by simp
  next
    case (Cons e' es')
    from Cons.prems have "toggling_from (if e = Activate then 1 else 0) es"
      by (cases e) simp_all
    moreover from this Cons have "\<not> same_kind e e'"
      using toggling_from_hd [of "if e = Activate then 1 else 0" e' es']
      by (cases e) (auto split: if_splits)
    ultimately show ?thesis
      using Cons.IH Cons by simp
  qed
qed

lemma run_flag_last:
  "isMeatbagTranscribing (run_state w s ins) =
     (if activation_events (run_events w s ins) = [] then isMeatbagTranscribing s
      else if last (activation_events (run_events w s ins)) = Activate then 1 else 0)"
proof (induction ins arbitrary: s)
  case Nil
  show ?case by (simp add: activation_events_def)
next
  case (Cons i ins)
  show ?case
    using Cons.IH [of "fst (loop w i s)"]
    by (simp add: activation_events_def loop_snd loop_fst edge_detector_pin)
qed

lemma run_flag_bool:
  "isMeatbagTranscribing s = 0 \<or> isMeatbagTranscribing s = 1 \<Longrightarrow>
   isMeatbagTranscribing (run_state w s ins) = 0 \<or> isMeatbagTranscribing (run_state w s ins) = 1"
  by (induction ins arbitrary: s) (auto simp add: loop_fst edge_detector_pin)

lemma run_pin_transitions:
  "isMeatbagTranscribing s = 0 \<or> isMeatbagTranscribing s = 1 \<Longrightarrow>
   activation_events (run_events w s ins) =
     pin_transitions (isMeatbagTranscribing s = 1) (map pin_activate ins)"
proof (induction ins arbitrary: s)
  case Nil
  show ?case by (simp add: activation_events_def)
next
  case (Cons i ins)
  have "isMeatbagTranscribing (fst (loop w i s)) = (if pin_activate i then 1 else 0)"
    using Cons.prems by (auto simp add: loop_fst edge_detector_pin)
  then show ?case
    using Cons.IH [of "fst (loop w i s)"] Cons.prems
    by (auto simp add: activation_events_def loop_snd edge_detector_pin)
qed

text \<open>
  Claim C7. In every state \<open>s\<close> reached from the initial state, the flag is 0 or 1 and
  a poll's edge detector does exactly this: flag 1 and pin low, the flag becomes 0 and
  \<open>Deactivate\<close> (printed as 2) is emitted; flag 0 and pin high, the flag becomes 1 and
  \<open>Activate\<close> (printed as 3) is emitted; otherwise state and output are unchanged.
  These are the only activation events of the poll. Consequently the activation events
  of a whole run are exactly the transitions of the pin between consecutive polls
  (the level before the first poll counting as low): one \<open>Activate\<close> per low-to-high
  transition, one \<open>Deactivate\<close> per high-to-low transition, none on a sustained level.
\<close>

theorem edge_detector_rule:
  "(isMeatbagTranscribing (run_state w initial_state ins) = 0
      \<or> isMeatbagTranscribing (run_state w initial_state ins) = 1)
   \<and> edge_detector i (run_state w initial_state ins) =
     (if isMeatbagTranscribing (run_state w initial_state ins) = 1 \<and> \<not> pin_activate i
      then ((run_state w initial_state ins)\<lparr>isMeatbagTranscribing := 0\<rparr>, [Deactivate])
      else if isMeatbagTranscribing (run_state w initial_state ins) = 0 \<and> pin_activate i
      then ((run_state w initial_state ins)\<lparr>isMeatbagTranscribing := 1\<rparr>, [Activate])
      else (run_state w initial_state ins, []))
   \<and> printed Deactivate = 2 \<and> printed Activate = 3
   \<and> activation_events (snd (loop w i (run_state w initial_state ins))) =
       snd (edge_detector i (run_state w initial_state ins))
   \<and> activation_events (run_events w initial_state ins) =
       pin_transitions False (map pin_activate ins)"
proof -
  have b: "isMeatbagTranscribing (run_state w initial_state ins) = 0
      \<or> isMeatbagTranscribing (run_state w initial_state ins) = 1"
    by (rule run_flag_bool) (simp add: initial_state_def)
  have "activation_events (run_events w initial_state ins) =
       pin_transitions False (map pin_activate ins)"
    using run_pin_transitions [of initial_state w ins] by (simp add: initial_state_def)
  moreover have "activation_events (snd (loop w i (run_state w initial_state ins))) =
       snd (edge_detector i (run_state w initial_state ins))"
    by (simp add: activation_events_def loop_snd edge_detector_pin)
  ultimately show ?thesis
    using b by (auto simp add: edge_detector_pin msg_defs)
qed

text \<open>With the pin high, high, low, low, high over five polls, the run emits
  \<open>Activate\<close>, \<open>Deactivate\<close>, \<open>Activate\<close>.\<close>

theorem edge_detector_rule_witness:
  "activation_events (run_events Int16 initial_state
      [reading 0 False True, reading 1 False True, reading 2 False False,
       reading 3 False False, reading 4 False True])
   = [Activate, Deactivate, Activate]"
  using edge_detector_rule [of Int16
      "[reading 0 False True, reading 1 False True, reading 2 False False,
        reading 3 False False, reading 4 False True]" "reading 5 False True"]
  by (simp add: reading_def)

text \<open>
  Claim C10. For every sequence of polls from the initial state, no two consecutive
  activation events are of the same kind, the first one (if any) is \<open>Activate\<close>, and
  after the run the flag is 1 exactly when the most recent activation event is
  \<open>Activate\<close> (and 0 when there is none or it is \<open>Deactivate\<close>).
\<close>

theorem activation_alternates:
  "successively (\<lambda>a b. \<not> same_kind a b) (activation_events (run_events w initial_state ins))
   \<and> (case activation_events (run_events w initial_state ins) of
        [] \<Rightarrow> True | a # rest \<Rightarrow> a = Activate)
   \<and> isMeatbagTranscribing (run_state w initial_state ins) =
       (if activation_events (run_events w initial_state ins) \<noteq> []
           \<and> last (activation_events (run_events w initial_state ins)) = Activate
        then 1 else 0)"
proof -
  have t: "toggling_from 0 (activation_events (run_events w initial_state ins))"
    using run_toggling_from [of initial_state w ins] by (simp add: initial_state_def)
  have "successively (\<lambda>a b. \<not> same_kind a b)
      (activation_events (run_events w initial_state ins))"
    using t by (rule toggling_from_successively)
  moreover have "case activation_events (run_events w initial_state ins) of
        [] \<Rightarrow> True | a # rest \<Rightarrow> a = Activate"
    using t toggling_from_hd [of 0] by (auto split: list.splits)
  moreover have "isMeatbagTranscribing (run_state w initial_state ins) =
       (if activation_events (run_events w initial_state ins) \<noteq> []
           \<and> last (activation_events (run_events w initial_state ins)) = Activate
        then 1 else 0)"
    using run_flag_last [of w initial_state ins] by (simp add: initial_state_def)
  ultimately show ?thesis by simp
qed

theorem activation_alternates_witness:
  "isMeatbagTranscribing (run_state Int16 initial_state
      [reading 0 False True, reading 1 False False, reading 2 False True]) = 1"
  using activation_alternates [of Int16
      "[reading 0 False True, reading 1 False False, reading 2 False True]"]
  by (simp add: activation_events_def reading_def initial_state_def loop_fst
      loop_snd scheduler_def edge_detector_pin EVENT_TIMESPAN_value msg_defs pin_defs)

section \<open>The scenario\<close>

lemma scenario_events:
  "run_events w initial_state (take 1 scenario) = [Activate]"
  "run_events w initial_state (take 2 scenario) = [Activate, Heartbeat]"
  "run_events w initial_state (take 3 scenario) = [Activate, Heartbeat, Probe 1]"
  "run_events w initial_state scenario = [Activate, Heartbeat, Probe 1, Heartbeat]"
  by (cases w; simp add: scenario_def reading_def initial_state_def loop_fst loop_snd
      scheduler_def edge_detector_pin EVENT_TIMESPAN_value msg_defs pin_defs)+

lemma scenario_wire: "wire (run_events w initial_state scenario) = ''3414''"
proof -
  have "wire [Activate, Heartbeat, Probe 1, Heartbeat] =
      Serial_print 3 @ Serial_print 4 @ Serial_print 1 @ Serial_print 4"
    by (simp add: wire_Cons wire_Nil msg_defs)
  then show ?thesis
    by (simp add: scenario_events(4) Serial_print_digit)
qed

text \<open>
  Claim C3, as amended. From the initial state, the clock sequence 0, 130, 260, 390 with
  the activation pin high and the signal pin at 1 produces exactly \<open>Activate\<close> at the
  first poll, \<open>Heartbeat\<close> at 130, a probe carrying the value 1 at 260 and
  \<open>Heartbeat\<close> again at 390, and nothing else. On the wire the probe is the single
  byte 1, so the whole stream is 3, 4, 1, 4.
\<close>

theorem scenario_trace:
  "run_events w initial_state (take 1 scenario) = [Activate]
   \<and> run_events w initial_state (take 2 scenario) = [Activate, Heartbeat]
   \<and> run_events w initial_state (take 3 scenario) = [Activate, Heartbeat, Probe 1]
   \<and> run_events w initial_state scenario = [Activate, Heartbeat, Probe 1, Heartbeat]
   \<and> wire (run_events w initial_state scenario) = ''3414''"
  using scenario_events [of w] scenario_wire [of w] by simp

theorem scenario_trace_witness:
  "wire (run_events Int16 initial_state scenario) = ''3414''
   \<and> wire (run_events Int32 initial_state scenario) = ''3414''"
  using scenario_trace [of Int16] scenario_trace [of Int32] by blast

text \<open>With the probe written as the two bytes 5 and 1 the stream would be
  3, 4, 5, 1, 4; it is not.\<close>

theorem scenario_wire_counterexample:
  "wire (run_events Int16 initial_state scenario) \<noteq> ''34514''
   \<and> wire (run_events Int32 initial_state scenario) \<noteq> ''34514''"
  by (simp add: scenario_wire)

section \<open>The state at startup\<close>

text \<open>
  Claim C5, as amended. At startup the last event timestamp is 0, the flag is 0 and
  \<open>previousEvent\<close> is \<open>MSG_EVENT_PROBE\<close>: the phase is the one the specification
  calls \<open>HEARTBEAT_PENDING\<close> (last event the probe, heartbeat due next). Accordingly
  the scheduler's first event is a heartbeat, as soon as the clock exceeds
  \<open>EVENT_TIMESPAN\<close>.
\<close>

theorem initial_state_fields:
  "previousTimestamp initial_state = 0
   \<and> previousEvent initial_state = of_int MSG_EVENT_PROBE
   \<and> phase_of initial_state = HEARTBEAT_PENDING
   \<and> isMeatbagTranscribing initial_state = 0
   \<and> snd (scheduler w i initial_state) =
       (if to_int w (millis i) > EVENT_TIMESPAN then [Heartbeat] else [])"
  by (simp add: initial_state_def phase_of_def scheduler_def)

theorem initial_state_fields_witness:
  "snd (scheduler Int32 (reading 126 False False) initial_state) = [Heartbeat]"
  using initial_state_fields [of Int32 "reading 126 False False"]
  by (simp add: reading_def EVENT_TIMESPAN_value)

text \<open>The initial phase is not \<open>PROBE_PENDING\<close>: the last event recorded is not
  the heartbeat, and the event due first is the heartbeat.\<close>

theorem initial_phase_counterexample:
  "phase_of initial_state \<noteq> PROBE_PENDING
   \<and> previousEvent initial_state \<noteq> of_int MSG_EVENT_HEARTBEAT
   \<and> snd (scheduler Int16 (reading 130 True True) initial_state) = [Heartbeat]"
  by (simp add: initial_state_def phase_of_def scheduler_def msg_defs reading_def
      EVENT_TIMESPAN_value)

section \<open>Decoding the byte stream\<close>

lemma loop_emitted: "list_all emitted (snd (loop w i s))"
  by (simp add: loop_snd scheduler_def edge_detector_pin Let_def pin_defs)

lemma run_emitted: "list_all emitted (run_events w s ins)"
  by (induction ins arbitrary: s) (simp_all add: loop_emitted)

lemma digit_event_simps:
  "digit_event CHR ''0'' = Some (Probe 0)" "digit_event CHR ''1'' = Some (Probe 1)"
  "digit_event CHR ''2'' = Some Deactivate" "digit_event CHR ''3'' = Some Activate"
  "digit_event CHR ''4'' = Some Heartbeat"
  by (simp_all add: digit_event_def)

lemma emitted_digit:
  "emitted e \<Longrightarrow> \<exists>c. Serial_print (printed e) = [c] \<and> digit_event c = Some e
      \<and> c \<in> set ''01234''"
proof (cases e)
  case Heartbeat
  then show ?thesis by (simp add: msg_defs Serial_print_digit digit_event_simps)
next
  case (Probe v)
  assume "emitted e"
  then have "v = 0 \<or> v = 1" using Probe by simp
  then show ?thesis using Probe by (auto simp add: Serial_print_digit digit_event_simps)
next
  case Deactivate
  then show ?thesis by (simp add: msg_defs Serial_print_digit digit_event_simps)
next
  case Activate
  then show ?thesis by (simp add: msg_defs Serial_print_digit digit_event_simps)
qed

lemma decode_wire:
  "list_all emitted es \<Longrightarrow> decode (wire es) = Some es \<and> set (wire es) \<subseteq> set ''01234''"
proof (induction es)
  case Nil
  show ?case by (simp add: wire_Nil)
next
  case (Cons e es)
  then obtain c where c: "Serial_print (printed e) = [c]" "digit_event c = Some e"
      "c \<in> set ''01234''"
    using emitted_digit [of e] by auto
  from Cons have "decode (wire es) = Some es" "set (wire es) \<subseteq> set ''01234''"
    by simp_all
  then show ?case
    using c by (simp add: wire_Cons)
qed

lemma spec_decode_scenario: "spec_decode ''3414'' = None"
  by simp

text \<open>
  Claim C6, as amended. For every sequence of polls, every byte written is one of the
  digits 0, 1, 2, 3, 4; the digit 5 is never written; and every byte is one event (0 and
  1 a probe with that value, 2 \<open>Deactivate\<close>, 3 \<open>Activate\<close>, 4 \<open>Heartbeat\<close>), so
  the decoder that reads each digit as a standalone event recovers the event sequence
  from the stream. As the decoder is a function of the stream, two runs with the same
  stream have the same events.
\<close>

theorem wire_decodable:
  "set (wire (run_events w initial_state ins)) \<subseteq> set ''01234''
   \<and> CHR ''5'' \<notin> set (wire (run_events w initial_state ins))
   \<and> decode (wire (run_events w initial_state ins)) = Some (run_events w initial_state ins)"
proof -
  have "decode (wire (run_events w initial_state ins)) = Some (run_events w initial_state ins)
      \<and> set (wire (run_events w initial_state ins)) \<subseteq> set ''01234''"
    by (rule decode_wire) (rule run_emitted)
  then show ?thesis by auto
qed

theorem wire_decodable_witness:
  "decode ''3414'' = Some [Activate, Heartbeat, Probe 1, Heartbeat]"
proof -
  have "decode (wire (run_events Int16 initial_state scenario))
      = Some (run_events Int16 initial_state scenario)"
    using wire_decodable [of Int16 scenario] by blast
  then have "decode ''3414'' = Some (run_events Int16 initial_state scenario)"
    by (simp only: scenario_wire)
  then show ?thesis
    by (simp only: scenario_events(4))
qed

text \<open>The grammar in which a probe is 5 followed by a bit does not fit the stream:
  the events of the scenario contain a probe, its stream contains no 5, and the
  decoder of that grammar does not return the events.\<close>

theorem spec_decode_counterexample:
  "spec_decode (wire (run_events Int16 initial_state scenario))
      \<noteq> Some (run_events Int16 initial_state scenario)
   \<and> Probe 1 \<in> set (run_events Int16 initial_state scenario)
   \<and> CHR ''5'' \<notin> set (wire (run_events Int16 initial_state scenario))"
  by (simp add: scenario_wire spec_decode_scenario) (simp add: scenario_events(4))

section \<open>The elapsed time\<close>

lemma sint_le_uint: "sint x \<le> uint x" for x :: "'a::len word"
  by (simp add: sint_uint signed_take_bit_int_less_eq_self_iff order_trans [of _ 0])

lemma uint_ucast_le: "uint (ucast x :: 16 word) \<le> uint x" for x :: ulong
  by (simp add: unsigned_ucast_eq take_bit_int_less_eq_self_iff)

lemma to_int_le_uint: "to_int w x \<le> uint x"
proof (cases w)
  case Int16
  have "sint (ucast x :: 16 word) \<le> uint (ucast x :: 16 word)"
    by (rule sint_le_uint)
  also have "\<dots> \<le> uint x"
    by (rule uint_ucast_le)
  finally show ?thesis using Int16 by simp
next
  case Int32
  then show ?thesis by (simp add: sint_le_uint)
qed

lemma to_int_le_INT_MAX: "to_int w x \<le> INT_MAX w"
proof (cases w)
  case Int16
  have "sint (ucast x :: 16 word) < 2 ^ (LENGTH(16) - 1)"
    by (rule sint_lt)
  then show ?thesis using Int16 by simp
next
  case Int32
  have "sint x < 2 ^ (LENGTH(32) - 1)"
    by (rule sint_lt)
  then show ?thesis using Int32 by simp
qed

lemma to_int_small:
  assumes "uint x \<le> INT_MAX w"
  shows "to_int w x = uint x"
proof (cases w)
  case Int16
  have lo: "- (2 ^ 15) \<le> uint x"
    by (rule order_trans [of _ 0]) simp_all
  have hi: "uint x < 2 ^ 15"
    using assms Int16 by simp
  have narrow: "uint (ucast x :: 16 word) = uint x"
    using hi by (simp add: unsigned_ucast_eq take_bit_int_eq_self)
  have "sint (ucast x :: 16 word) = uint x"
    using hi narrow lo signed_take_bit_int_eq_self [of 15 "uint x"]
    by (simp add: sint_uint)
  then show ?thesis using Int16 by simp
next
  case Int32
  have lo: "- (2 ^ 31) \<le> uint x"
    by (rule order_trans [of _ 0]) simp_all
  have hi: "uint x < 2 ^ 31"
    using assms Int32 by simp
  have "sint x = uint x"
    using hi lo signed_take_bit_int_eq_self [of 31 "uint x"]
    by (simp add: sint_uint)
  then show ?thesis using Int32 by simp
qed

lemma elapsed_lower_bound:
  assumes "to_int w (c - p) > EVENT_TIMESPAN" and "uint p \<le> uint c"
  shows "uint p + EVENT_TIMESPAN < uint c"
proof -
  have "to_int w (c - p) \<le> uint (c - p)"
    by (rule to_int_le_uint)
  moreover have "uint (c - p) = uint c - uint p"
    using assms(2) uint_sub_lem by auto
  ultimately show ?thesis using assms(1) by simp
qed

text \<open>
  The conversion to \<open>int\<close> is exact precisely when the unsigned difference is at most
  \<open>INT_MAX\<close>. In that range, also when the clock has wrapped around in between, the
  heartbeat fires exactly when the difference exceeds \<open>EVENT_TIMESPAN\<close> and the
  previous event is the probe, and the probe exactly when it exceeds
  \<open>EVENT_TIMESPAN\<close>, the previous event is the heartbeat and the flag is 1.
\<close>

lemma elapsed_small_exact:
  "(to_int w (millis i - previousTimestamp s) = uint (millis i - previousTimestamp s)
      \<longleftrightarrow> uint (millis i - previousTimestamp s) \<le> INT_MAX w)
   \<and> uint (millis i - previousTimestamp s)
        = (uint (millis i) - uint (previousTimestamp s)) mod 2 ^ 32
   \<and> (uint (millis i - previousTimestamp s) \<le> INT_MAX w \<longrightarrow>
        (snd (scheduler w i s) = [Heartbeat] \<longleftrightarrow>
          uint (millis i - previousTimestamp s) > EVENT_TIMESPAN
          \<and> previousEvent s = of_int MSG_EVENT_PROBE)
      \<and> (snd (scheduler w i s) = [Probe (digitalRead (pin_in i))] \<longleftrightarrow>
          uint (millis i - previousTimestamp s) > EVENT_TIMESPAN
          \<and> previousEvent s = of_int MSG_EVENT_HEARTBEAT
          \<and> isMeatbagTranscribing s = 1))"
proof -
  have x: "to_int w (millis i - previousTimestamp s) = uint (millis i - previousTimestamp s)
      \<longleftrightarrow> uint (millis i - previousTimestamp s) \<le> INT_MAX w"
    using to_int_small [of "millis i - previousTimestamp s" w]
      to_int_le_INT_MAX [of w "millis i - previousTimestamp s"] by auto
  have m: "uint (millis i - previousTimestamp s)
        = (uint (millis i) - uint (previousTimestamp s)) mod 2 ^ 32"
    by (simp add: uint_word_ariths)
  have g: "(snd (scheduler w i s) = [Heartbeat] \<longleftrightarrow>
          uint (millis i - previousTimestamp s) > EVENT_TIMESPAN
          \<and> previousEvent s = of_int MSG_EVENT_PROBE)
      \<and> (snd (scheduler w i s) = [Probe (digitalRead (pin_in i))] \<longleftrightarrow>
          uint (millis i - previousTimestamp s) > EVENT_TIMESPAN
          \<and> previousEvent s = of_int MSG_EVENT_HEARTBEAT
          \<and> isMeatbagTranscribing s = 1)"
    if small: "uint (millis i - previousTimestamp s) \<le> INT_MAX w"
  proof -
    have e: "to_int w (millis i - previousTimestamp s) = uint (millis i - previousTimestamp s)"
      using small by (rule to_int_small)
    have "snd (scheduler w i s) = [Heartbeat] \<longleftrightarrow>
          uint (millis i - previousTimestamp s) > EVENT_TIMESPAN
          \<and> previousEvent s = of_int MSG_EVENT_PROBE"
      by (simp add: scheduler_def Let_def e)
    moreover have "snd (scheduler w i s) = [Probe (digitalRead (pin_in i))] \<longleftrightarrow>
          uint (millis i - previousTimestamp s) > EVENT_TIMESPAN
          \<and> previousEvent s = of_int MSG_EVENT_HEARTBEAT
          \<and> isMeatbagTranscribing s = 1"
      by (auto simp add: scheduler_def Let_def e msg_defs)
    ultimately show ?thesis by blast
  qed
  show ?thesis
    using x m g by blast
qed

text \<open>A poll at clock 100 after a probe at clock 4294967246, 50 ms before the clock
  wraps: the elapsed time is 150 ms and the heartbeat fires.\<close>

lemma elapsed_across_wraparound:
  "uint (millis (reading 100 True True) - previousTimestamp before_wrap) \<le> INT_MAX Int16
   \<and> to_int Int16 (millis (reading 100 True True) - previousTimestamp before_wrap) = 150
   \<and> snd (scheduler Int16 (reading 100 True True) before_wrap) = [Heartbeat]"
proof -
  have d: "millis (reading 100 True True) - previousTimestamp before_wrap = 150"
    by (simp add: reading_def before_wrap_def)
  have h: "uint (millis (reading 100 True True) - previousTimestamp before_wrap)
      \<le> INT_MAX Int16"
    unfolding d by simp
  have p: "previousEvent before_wrap = of_int MSG_EVENT_PROBE"
    by (simp add: before_wrap_def msg_defs)
  have "snd (scheduler Int16 (reading 100 True True) before_wrap) = [Heartbeat]"
    using h p elapsed_small_exact [of Int16 "reading 100 True True" before_wrap]
    by (simp add: d EVENT_TIMESPAN_value)
  moreover have "to_int Int16 (millis (reading 100 True True)
      - previousTimestamp before_wrap) = 150"
    unfolding d by simp
  ultimately show ?thesis
    using h by blast
qed

lemma long_gap_state16:
  "run_state Int16 initial_state [reading 130 False False, reading 40000 False True] =
     \<lparr>isMeatbagTranscribing = 1, previousTimestamp = 130, previousEvent = 4\<rparr>"
  by (simp add: reading_def initial_state_def loop_fst scheduler_def
      edge_detector_pin EVENT_TIMESPAN_value msg_defs)

lemma long_gap_state32:
  "run_state Int32 initial_state [reading 130 False False, reading 2147483800 False True] =
     \<lparr>isMeatbagTranscribing = 1, previousTimestamp = 130, previousEvent = 4\<rparr>"
  by (simp add: reading_def initial_state_def loop_fst scheduler_def
      edge_detector_pin EVENT_TIMESPAN_value msg_defs)

text \<open>
  Claim C9. The claim is that for every poll the elapsed time used by both scheduler
  guards equals the wrapping unsigned difference of the current clock and the last
  transition timestamp, so that the comparisons against \<open>EVENT_TIMESPAN\<close> behave
  as on the true elapsed time. The sketch computes that difference on
  \<open>unsigned long\<close> operands and then stores it in an \<open>int\<close>, and departs from
  the claim beyond \<open>INT_MAX\<close>. With a 16-bit \<open>int\<close>: a heartbeat at 130 ms, the
  operator activating at 40000 ms, and the next poll at 40001 ms. The unsigned
  difference is 39871 ms, far above \<open>EVENT_TIMESPAN\<close>, the previous event is the
  heartbeat and the flag is 1, but the elapsed time the guards see is -25665 and no
  probe is emitted. With a 32-bit \<open>int\<close> the same happens at an unsigned difference
  of 2147483671 ms.
\<close>

theorem elapsed_narrowed:
  "uint (millis (reading 40001 True True) - previousTimestamp
      (run_state Int16 initial_state [reading 130 False False, reading 40000 False True]))
     = 39871
   \<and> to_int Int16 (millis (reading 40001 True True) - previousTimestamp
      (run_state Int16 initial_state [reading 130 False False, reading 40000 False True]))
     = - 25665
   \<and> previousEvent
      (run_state Int16 initial_state [reading 130 False False, reading 40000 False True])
     = of_int MSG_EVENT_HEARTBEAT
   \<and> isMeatbagTranscribing
      (run_state Int16 initial_state [reading 130 False False, reading 40000 False True]) = 1
   \<and> snd (scheduler Int16 (reading 40001 True True)
      (run_state Int16 initial_state [reading 130 False False, reading 40000 False True])) = []
   \<and> uint (millis (reading 2147483801 True True) - previousTimestamp
      (run_state Int32 initial_state [reading 130 False False, reading 2147483800 False True]))
     = 2147483671
   \<and> to_int Int32 (millis (reading 2147483801 True True) - previousTimestamp
      (run_state Int32 initial_state [reading 130 False False, reading 2147483800 False True]))
     = - 2147483625
   \<and> snd (scheduler Int32 (reading 2147483801 True True)
      (run_state Int32 initial_state [reading 130 False False, reading 2147483800 False True]))
     = []"
  unfolding long_gap_state16 long_gap_state32
  by (simp add: reading_def scheduler_def EVENT_TIMESPAN_value msg_defs)

section \<open>The spacing of heartbeats\<close>

lemma loop_heartbeat_iff:
  "Heartbeat \<in> set (snd (loop w i s)) \<longleftrightarrow>
     to_int w (millis i - previousTimestamp s) > EVENT_TIMESPAN \<and> previousEvent s = 5"
  by (simp add: loop_snd scheduler_def edge_detector_pin Let_def msg_defs)

lemma heartbeat_times_separated:
  assumes "sorted (uint (previousTimestamp s) # clock ins)"
  shows "successively (\<lambda>a b. uint a + EVENT_TIMESPAN < uint b) (heartbeat_times w s ins)
    \<and> (\<forall>t \<in> set (heartbeat_times w s ins). earliest_heartbeat s < uint t)"
  using assms
proof (induction ins arbitrary: s)
  case Nil
  show ?case by simp
next
  case (Cons i ins)
  let ?s' = "fst (loop w i s)"
  let ?e = "to_int w (millis i - previousTimestamp s)"
  have le: "uint (previousTimestamp s) \<le> uint (millis i)"
    using Cons.prems by (simp add: clock_def)
  have rest: "sorted (uint (millis i) # clock ins)"
    "sorted (uint (previousTimestamp s) # clock ins)"
    using Cons.prems by (auto simp add: clock_def)
  consider (hb) "?e > EVENT_TIMESPAN" "previousEvent s = 5"
    | (pr) "?e > EVENT_TIMESPAN" "previousEvent s = 4" "isMeatbagTranscribing s = 1"
    | (idle) "\<not> (?e > EVENT_TIMESPAN \<and> (previousEvent s = 5
         \<or> previousEvent s = 4 \<and> isMeatbagTranscribing s = 1))"
    by auto
  then show ?case
  proof cases
    case hb
    have far: "uint (previousTimestamp s) + EVENT_TIMESPAN < uint (millis i)"
      using hb(1) le by (rule elapsed_lower_bound)
    have s': "previousTimestamp ?s' = millis i" "previousEvent ?s' = 4"
      using hb by (simp_all add: loop_fst scheduler_heartbeat msg_defs)
    have ih: "successively (\<lambda>a b. uint a + EVENT_TIMESPAN < uint b) (heartbeat_times w ?s' ins)
      \<and> (\<forall>t \<in> set (heartbeat_times w ?s' ins). earliest_heartbeat ?s' < uint t)"
      using rest(1) by (intro Cons.IH) (simp add: s')
    have hd: "heartbeat_times w s (i # ins) = millis i # heartbeat_times w ?s' ins"
      using hb by (simp add: loop_heartbeat_iff)
    have "successively (\<lambda>a b. uint a + EVENT_TIMESPAN < uint b)
        (millis i # heartbeat_times w ?s' ins)"
      using ih by (cases "heartbeat_times w ?s' ins") (simp_all add: earliest_heartbeat_def s')
    moreover have "\<forall>t \<in> set (millis i # heartbeat_times w ?s' ins).
        earliest_heartbeat s < uint t"
      using ih far hb(2) by (auto simp add: earliest_heartbeat_def s' EVENT_TIMESPAN_value)
    ultimately show ?thesis by (simp only: hd)
  next
    case pr
    have far: "uint (previousTimestamp s) + EVENT_TIMESPAN < uint (millis i)"
      using pr(1) le by (rule elapsed_lower_bound)
    have s': "previousTimestamp ?s' = millis i" "previousEvent ?s' = 5"
      using pr by (simp_all add: loop_fst scheduler_probe msg_defs)
    have ih: "successively (\<lambda>a b. uint a + EVENT_TIMESPAN < uint b) (heartbeat_times w ?s' ins)
      \<and> (\<forall>t \<in> set (heartbeat_times w ?s' ins). earliest_heartbeat ?s' < uint t)"
      using rest(1) by (intro Cons.IH) (simp add: s')
    have tl: "heartbeat_times w s (i # ins) = heartbeat_times w ?s' ins"
      using pr by (simp add: loop_heartbeat_iff)
    show ?thesis
      unfolding tl using ih far pr(2) by (auto simp add: earliest_heartbeat_def s')
  next
    case idle
    have s': "previousTimestamp ?s' = previousTimestamp s" "previousEvent ?s' = previousEvent s"
      using idle by (simp_all add: loop_fst scheduler_idle msg_defs)
    have ih: "successively (\<lambda>a b. uint a + EVENT_TIMESPAN < uint b) (heartbeat_times w ?s' ins)
      \<and> (\<forall>t \<in> set (heartbeat_times w ?s' ins). earliest_heartbeat ?s' < uint t)"
      using rest(2) by (intro Cons.IH) (simp add: s')
    have tl: "heartbeat_times w s (i # ins) = heartbeat_times w ?s' ins"
      using idle by (auto simp add: loop_heartbeat_iff)
    show ?thesis
      unfolding tl using ih by (simp add: earliest_heartbeat_def s')
  qed
qed

text \<open>
  Claim C8. For every sequence of polls from the initial state whose clock readings
  never decrease, any two consecutive heartbeats are more than \<open>EVENT_TIMESPAN\<close>
  milliseconds of clock time apart, and \<open>EVENT_TIMESPAN\<close> is 125.
\<close>

theorem heartbeats_spaced:
  assumes "sorted (clock ins)"
  shows "successively (\<lambda>a b. uint a + EVENT_TIMESPAN < uint b)
           (heartbeat_times w initial_state ins)
    \<and> EVENT_TIMESPAN = 125"
proof -
  have "sorted (uint (previousTimestamp initial_state) # clock ins)"
    using assms by (simp add: initial_state_def clock_def)
  then show ?thesis
    using heartbeat_times_separated [of initial_state ins w]
    by (simp add: EVENT_TIMESPAN_value)
qed

theorem heartbeats_spaced_witness:
  "sorted (clock scenario)
   \<and> heartbeat_times Int16 initial_state scenario = [130, 390]
   \<and> successively (\<lambda>a b. uint a + EVENT_TIMESPAN < uint b)
        (heartbeat_times Int16 initial_state scenario)"
proof -
  have h: "sorted (clock scenario)"
    by (simp add: clock_def scenario_def reading_def)
  have "heartbeat_times Int16 initial_state scenario = [130, 390]"
    by (simp add: scenario_def reading_def initial_state_def loop_fst loop_snd
        scheduler_def edge_detector_pin EVENT_TIMESPAN_value msg_defs pin_defs)
  then show ?thesis
    using h heartbeats_spaced [OF h, of Int16] by blast
qed

section \<open>Polls while the operator is not transcribing\<close>

lemma inactive_loop:
  assumes "isMeatbagTranscribing s = 0" and "\<not> pin_activate i"
  shows "isMeatbagTranscribing (fst (loop w i s)) = 0"
    and "to_int w (millis i - previousTimestamp s) > EVENT_TIMESPAN
         \<and> previousEvent s = of_int MSG_EVENT_PROBE
       \<Longrightarrow> snd (loop w i s) = [Heartbeat]
           \<and> previousEvent (fst (loop w i s)) = of_int MSG_EVENT_HEARTBEAT"
    and "\<not> (to_int w (millis i - previousTimestamp s) > EVENT_TIMESPAN
         \<and> previousEvent s = of_int MSG_EVENT_PROBE)
       \<Longrightarrow> snd (loop w i s) = [] \<and> previousEvent (fst (loop w i s)) = previousEvent s"
  using assms
  by (auto simp add: loop_fst loop_snd scheduler_def edge_detector_pin Let_def)

lemma inactive_run_events:
  assumes "isMeatbagTranscribing s = 0" and "\<forall>i \<in> set ins. \<not> pin_activate i"
  shows "(run_events w s ins = [] \<or> run_events w s ins = [Heartbeat]
            \<and> previousEvent s = of_int MSG_EVENT_PROBE)
       \<and> isMeatbagTranscribing (run_state w s ins) = 0"
  using assms
proof (induction ins arbitrary: s)
  case Nil
  then show ?case by simp
next
  case (Cons i ins)
  have low: "\<not> pin_activate i" and rest: "\<forall>i \<in> set ins. \<not> pin_activate i"
    using Cons.prems(2) by simp_all
  have flag: "isMeatbagTranscribing (fst (loop w i s)) = 0"
    using Cons.prems(1) low by (rule inactive_loop(1))
  have ih: "(run_events w (fst (loop w i s)) ins = []
        \<or> run_events w (fst (loop w i s)) ins = [Heartbeat]
            \<and> previousEvent (fst (loop w i s)) = of_int MSG_EVENT_PROBE)
       \<and> isMeatbagTranscribing (run_state w (fst (loop w i s)) ins) = 0"
    using flag rest by (rule Cons.IH)
  show ?case
  proof (cases "to_int w (millis i - previousTimestamp s) > EVENT_TIMESPAN
         \<and> previousEvent s = of_int MSG_EVENT_PROBE")
    case True
    then have "snd (loop w i s) = [Heartbeat]
        \<and> previousEvent (fst (loop w i s)) = of_int MSG_EVENT_HEARTBEAT"
      using Cons.prems(1) low inactive_loop(2) by blast
    then show ?thesis
      using ih True by (auto simp add: msg_defs)
  next
    case False
    then have "snd (loop w i s) = [] \<and> previousEvent (fst (loop w i s)) = previousEvent s"
      using Cons.prems(1) low inactive_loop(3) by blast
    then show ?thesis
      using ih by auto
  qed
qed

text \<open>While the flag is 0 and the activation pin stays low, no probe is emitted,
  whatever the elapsed time, and the flag stays 0.\<close>

lemma inactive_no_probe:
  assumes "isMeatbagTranscribing s = 0" and "\<forall>i \<in> set ins. \<not> pin_activate i"
  shows "(\<forall>v. Probe v \<notin> set (run_events w s ins))
    \<and> isMeatbagTranscribing (run_state w s ins) = 0"
  using inactive_run_events [OF assms, of w] by auto

lemma idle_state:
  "run_state w initial_state [reading 130 False False] =
     \<lparr>isMeatbagTranscribing = 0, previousTimestamp = 130, previousEvent = 4\<rparr>"
  "run_state w initial_state [reading 130 False False, reading 260 False False] =
     \<lparr>isMeatbagTranscribing = 0, previousTimestamp = 130, previousEvent = 4\<rparr>"
  by (cases w; simp add: reading_def initial_state_def loop_fst scheduler_def
      edge_detector_pin EVENT_TIMESPAN_value msg_defs)+

lemma idle_events: "run_events w initial_state idle_polls = [Heartbeat]"
  by (cases w; simp add: idle_polls_def reading_def initial_state_def loop_fst loop_snd
      scheduler_def edge_detector_pin EVENT_TIMESPAN_value msg_defs)

lemma deactivated_state:
  "run_state w initial_state
     [reading 0 True True, reading 130 True True, reading 260 True True,
      reading 390 True False] =
     \<lparr>isMeatbagTranscribing = 0, previousTimestamp = 390, previousEvent = 4\<rparr>"
  by (cases w; simp add: reading_def initial_state_def loop_fst scheduler_def
      edge_detector_pin EVENT_TIMESPAN_value msg_defs)

lemma deactivation_events:
  "run_events w initial_state deactivation_polls =
     [Activate, Heartbeat, Probe 1, Heartbeat, Deactivate]"
  by (cases w; simp add: deactivation_polls_def reading_def initial_state_def loop_fst
      loop_snd scheduler_def edge_detector_pin EVENT_TIMESPAN_value msg_defs pin_defs)

text \<open>
  Claim C2. The claim is that while the transcription flag is false throughout (the
  activation pin never reads high) no probe is emitted and heartbeats continue, one on
  every poll where the elapsed time since the last transition exceeds
  \<open>EVENT_TIMESPAN\<close>, also after a deactivation. The sketch emits no probe, but its
  heartbeats stop. From the initial state, with both pins low and polls at 130, 260 and
  390 ms, the poll at 130 ms emits the heartbeat; at 260 ms the flag is 0 and the
  elapsed time is 130 ms, at 390 ms it is 260 ms, both above \<open>EVENT_TIMESPAN\<close> = 125,
  and neither poll emits anything. In the scenario continued by a deactivation at
  390 ms, the poll at 520 ms has an elapsed time of 130 ms and emits nothing, and
  nothing follows the \<open>Deactivate\<close>.
\<close>

theorem heartbeat_stall:
  "run_events w initial_state idle_polls = [Heartbeat]
   \<and> isMeatbagTranscribing (run_state w initial_state [reading 130 False False]) = 0
   \<and> to_int w (millis (reading 260 False False)
        - previousTimestamp (run_state w initial_state [reading 130 False False])) = 130
   \<and> snd (loop w (reading 260 False False)
        (run_state w initial_state [reading 130 False False])) = []
   \<and> to_int w (millis (reading 390 False False)
        - previousTimestamp (run_state w initial_state
            [reading 130 False False, reading 260 False False])) = 260
   \<and> snd (loop w (reading 390 False False)
        (run_state w initial_state [reading 130 False False, reading 260 False False])) = []
   \<and> EVENT_TIMESPAN = 125
   \<and> run_events w initial_state deactivation_polls =
        [Activate, Heartbeat, Probe 1, Heartbeat, Deactivate]
   \<and> to_int w (millis (reading 520 True False)
        - previousTimestamp (run_state w initial_state
            [reading 0 True True, reading 130 True True, reading 260 True True,
             reading 390 True False])) = 130
   \<and> snd (loop w (reading 520 True False)
        (run_state w initial_state
            [reading 0 True True, reading 130 True True, reading 260 True True,
             reading 390 True False])) = []"
  unfolding idle_state deactivated_state idle_events deactivation_events
  by (cases w; simp add: reading_def loop_snd scheduler_def edge_detector_pin
      EVENT_TIMESPAN_value msg_defs)

end
